theory Spec2Isabelle
  imports Complex_Main
begin

section \<open>Constants of \<^verbatim>\<open>flappy_bird.py\<close>\<close>

text \<open>
  Python's unbounded integers are \<open>int\<close>. Python floats are modelled as \<open>real\<close>:
  rounding of the binary floating-point operations is not part of the model.
\<close>

definition WINDOW_WIDTH :: int where "WINDOW_WIDTH = 400"
definition WINDOW_HEIGHT :: int where "WINDOW_HEIGHT = 600"
definition GRAVITY :: real where "GRAVITY = 0.5"
definition FLAP_STRENGTH :: int where "FLAP_STRENGTH = - 6"
definition MAX_VELOCITY :: int where "MAX_VELOCITY = 10"
definition ACCELERATION :: real where "ACCELERATION = 1.05"
definition PIPE_SPEED :: int where "PIPE_SPEED = 3"
definition PIPE_GAP :: int where "PIPE_GAP = 150"


section \<open>Persistence\<close>

text \<open>
  The SQLite store has two tables: \<open>state\<close> (key, value; both text) and \<open>owned_skins\<close>
  (one text column, primary key). Every caller wraps the store in \<^verbatim>\<open>try/except\<close>; the
  exception the library may raise is the error \<open>DbError\<close>, raised by every operation of a
  store whose connection is unusable (\<open>conn_ok\<close> false).
\<close>

datatype error = DbError | KeyError

record Persistence =
  state_tbl :: "string \<rightharpoonup> string"
  owned_skins_tbl :: "string set"
  conn_ok :: bool

definition get_state :: "string \<Rightarrow> string option \<Rightarrow> Persistence \<Rightarrow> error + string option" where
  "get_state key dflt db =
     (if \<not> conn_ok db then Inl DbError
      else Inr (case state_tbl db key of None \<Rightarrow> dflt | Some v \<Rightarrow> Some v))"

text \<open>\<open>set_state\<close> receives the text \<open>str(value)\<close>.\<close>

definition set_state :: "string \<Rightarrow> string \<Rightarrow> Persistence \<Rightarrow> error + Persistence" where
  "set_state key val db =
     (if \<not> conn_ok db then Inl DbError
      else Inr (db\<lparr>state_tbl := (state_tbl db)(key \<mapsto> val)\<rparr>))"

definition add_owned_skin :: "string \<Rightarrow> Persistence \<Rightarrow> error + Persistence" where
  "add_owned_skin skin_name db =
     (if \<not> conn_ok db then Inl DbError
      else Inr (db\<lparr>owned_skins_tbl := insert skin_name (owned_skins_tbl db)\<rparr>))"

definition get_owned_skins :: "Persistence \<Rightarrow> error + string set" where
  "get_owned_skins db = (if \<not> conn_ok db then Inl DbError else Inr (owned_skins_tbl db))"

text \<open>Python's \<open>str\<close> on an integer: decimal digits, with a minus sign when negative.\<close>

fun digits :: "nat \<Rightarrow> string" where
  "digits n =
     (if n < 10 then [char_of (48 + n)]
      else digits (n div 10) @ [char_of (48 + n mod 10)])"

declare digits.simps [simp del]

definition str_int :: "int \<Rightarrow> string" where
  "str_int i = (if i < 0 then CHR ''-'' # digits (nat (- i)) else digits (nat i))"

section \<open>Bird\<close>

type_synonym rgb = "nat \<times> nat \<times> nat"

record palette =
  body :: rgb
  wing :: rgb
  beak :: rgb
  eye :: rgb

definition BLACK :: rgb where "BLACK = (0, 0, 0)"
definition WHITE :: rgb where "WHITE = (255, 255, 255)"

text \<open>The catalog \<open>Bird.SKINS\<close>, in the order of the dictionary literal: name, colours, price.\<close>

definition SKINS :: "(string \<times> palette \<times> int) list" where
  "SKINS =
    [(''default'',  \<lparr>body = (255, 185, 0),   wing = (255, 140, 0),   beak = (255, 69, 0),    eye = BLACK\<rparr>, 0),
     (''blue_jay'', \<lparr>body = (100, 149, 237), wing = (65, 105, 225),  beak = (211, 211, 211), eye = BLACK\<rparr>, 50),
     (''cardinal'', \<lparr>body = (220, 20, 60),   wing = (139, 0, 0),     beak = (255, 140, 0),   eye = BLACK\<rparr>, 100),
     (''rainbow'',  \<lparr>body = (255, 0, 255),   wing = (0, 255, 255),   beak = (255, 255, 0),   eye = WHITE\<rparr>, 200),
     (''ninja'',    \<lparr>body = (32, 32, 32),    wing = (20, 20, 20),    beak = (64, 64, 64),    eye = (255, 0, 0)\<rparr>, 150),
     (''ghost'',    \<lparr>body = (240, 240, 255), wing = (200, 200, 255), beak = (220, 220, 255), eye = (0, 0, 255)\<rparr>, 175),
     (''phoenix'',  \<lparr>body = (255, 69, 0),    wing = (255, 140, 0),   beak = (255, 215, 0),   eye = (255, 255, 0)\<rparr>, 250),
     (''emerald'',  \<lparr>body = (46, 139, 87),   wing = (0, 100, 0),     beak = (32, 178, 170),  eye = (152, 251, 152)\<rparr>, 150),
     (''robot'',    \<lparr>body = (192, 192, 192), wing = (128, 128, 128), beak = (169, 169, 169), eye = (0, 255, 255)\<rparr>, 300)]"

text \<open>
  \<open>colors\<close> is \<open>None\<close> until \<open>apply_skin\<close> has set the attribute. \<open>bird_x\<close>, \<open>bird_size\<close>
  and \<open>angle\<close> only ever hold Python integers; \<open>bird_y\<close> and \<open>velocity\<close> become floats.
\<close>

record Bird =
  bird_x :: int
  bird_y :: real
  velocity :: real
  bird_size :: int
  angle :: int
  current_skin :: string
  owned_skins :: "string set"
  colors :: "palette option"

definition load_owned_skins :: "Persistence \<Rightarrow> Bird \<Rightarrow> Bird" where
  "load_owned_skins db b =
     (case get_owned_skins db of
        Inr skins \<Rightarrow>
          (let b1 = (if skins \<noteq> {} then b\<lparr>owned_skins := skins\<rparr> else b)
           in b1\<lparr>owned_skins := insert ''default'' (owned_skins b1)\<rparr>)
      | Inl e \<Rightarrow> b\<lparr>owned_skins := {''default''}\<rparr>)"

definition save_current_skin :: "Bird \<Rightarrow> Persistence \<Rightarrow> Persistence" where
  "save_current_skin b db =
     (case set_state ''current_skin'' (current_skin b) db of Inr db' \<Rightarrow> db' | Inl e \<Rightarrow> db)"

definition load_current_skin :: "Persistence \<Rightarrow> Bird \<Rightarrow> Bird" where
  "load_current_skin db b =
     (case get_state ''current_skin'' None db of
        Inr skin \<Rightarrow>
          (case skin of
             Some s \<Rightarrow>
               (if s \<noteq> [] \<and> s \<in> fst ` set SKINS \<and> s \<in> owned_skins b
                then b\<lparr>current_skin := s\<rparr> else b)
           | None \<Rightarrow> b)
      | Inl e \<Rightarrow> b\<lparr>current_skin := ''default''\<rparr>)"

text \<open>\<open>SKINS[skin_name]\<close> raises \<open>KeyError\<close> on a name that is not in the catalog.\<close>

definition apply_skin :: "string \<Rightarrow> Bird \<Rightarrow> error + Bird" where
  "apply_skin skin_name b =
     (case map_of SKINS skin_name of
        None \<Rightarrow> Inl KeyError
      | Some (pal, price) \<Rightarrow> Inr (b\<lparr>colors := Some pal\<rparr>))"

definition Bird_init :: "Persistence \<Rightarrow> error + Bird" where
  "Bird_init db =
     (let b0 = \<lparr>bird_x = WINDOW_WIDTH div 3, bird_y = of_int (WINDOW_HEIGHT div 2),
                velocity = 0, bird_size = 30, angle = 0, current_skin = ''default'',
                owned_skins = {''default''}, colors = None\<rparr>;
          b1 = load_owned_skins db b0;
          b2 = load_current_skin db b1
      in apply_skin (current_skin b2) b2)"

definition set_skin :: "string \<Rightarrow> Bird \<Rightarrow> Persistence \<Rightarrow> error + Bird \<times> Persistence" where
  "set_skin skin_name b db =
     (if skin_name \<in> fst ` set SKINS \<and> skin_name \<in> owned_skins b then
        (case apply_skin skin_name (b\<lparr>current_skin := skin_name\<rparr>) of
           Inl e \<Rightarrow> Inl e
         | Inr b' \<Rightarrow> Inr (b', save_current_skin b' db))
      else Inr (b, db))"

text \<open>
  The price is read only after \<open>skin_name in self.SKINS\<close> has held (\<open>and\<close> short-circuits),
  so the lookup cannot raise.
\<close>

definition purchase_skin :: "string \<Rightarrow> int \<Rightarrow> Bird \<Rightarrow> Persistence \<Rightarrow> bool \<times> Bird \<times> Persistence" where
  "purchase_skin skin_name coins b db =
     (case map_of SKINS skin_name of
        None \<Rightarrow> (False, b, db)
      | Some (pal, price) \<Rightarrow>
          (if skin_name \<notin> owned_skins b \<and> coins \<ge> price then
             (True, b\<lparr>owned_skins := insert skin_name (owned_skins b)\<rparr>,
              (case add_owned_skin skin_name db of Inr db' \<Rightarrow> db' | Inl e \<Rightarrow> db))
           else (False, b, db)))"

definition flap :: "Bird \<Rightarrow> Bird" where
  "flap b = b\<lparr>velocity := of_int FLAP_STRENGTH, angle := 20\<rparr>"

definition Bird_update :: "Bird \<Rightarrow> Bird" where
  "Bird_update b =
     (let v = (if velocity b > 0
               then min (velocity b * ACCELERATION + GRAVITY) (of_int MAX_VELOCITY)
               else velocity b + GRAVITY);
          b1 = b\<lparr>velocity := v, bird_y := bird_y b + v\<rparr>
      in if velocity b1 < 0 then b1\<lparr>angle := 20\<rparr>
         else b1\<lparr>angle := max (- 70) (angle b1 - 4)\<rparr>)"

text \<open>A sequence of player impulses and simulation steps applied to the avatar.\<close>

datatype bird_op = Flap | Update

fun bird_ops :: "bird_op list \<Rightarrow> Bird \<Rightarrow> Bird" where
  "bird_ops [] b = b"
| "bird_ops (Flap # ops) b = bird_ops ops (flap b)"
| "bird_ops (Update # ops) b = bird_ops ops (Bird_update b)"

section \<open>Rectangles of the graphics library\<close>

text \<open>
  \<open>pygame.Rect\<close> is library code. A rectangle holds integers: a float coordinate is
  truncated toward zero when the rectangle is built. \<open>colliderect\<close> is false when either
  rectangle has a zero width or height and otherwise tests that the two extents overlap
  on both axes; \<open>collidepoint\<close> includes the left and top edges only.
\<close>

record Rect =
  rect_x :: int
  rect_y :: int
  rect_w :: int
  rect_h :: int

definition trunc_int :: "real \<Rightarrow> int" where
  "trunc_int r = (if r \<ge> 0 then \<lfloor>r\<rfloor> else \<lceil>r\<rceil>)"

definition colliderect :: "Rect \<Rightarrow> Rect \<Rightarrow> bool" where
  "colliderect a b =
     (if rect_w a = 0 \<or> rect_h a = 0 \<or> rect_w b = 0 \<or> rect_h b = 0 then False
      else min (rect_x a) (rect_x a + rect_w a) < max (rect_x b) (rect_x b + rect_w b)
         \<and> min (rect_y a) (rect_y a + rect_h a) < max (rect_y b) (rect_y b + rect_h b)
         \<and> max (rect_x a) (rect_x a + rect_w a) > min (rect_x b) (rect_x b + rect_w b)
         \<and> max (rect_y a) (rect_y a + rect_h a) > min (rect_y b) (rect_y b + rect_h b))"

definition collidepoint :: "Rect \<Rightarrow> int \<times> int \<Rightarrow> bool" where
  "collidepoint r pos =
     (rect_x r \<le> fst pos \<and> fst pos < rect_x r + rect_w r
      \<and> rect_y r \<le> snd pos \<and> snd pos < rect_y r + rect_h r)"

section \<open>Pipe\<close>

record Pipe =
  gap_y :: int
  pipe_x :: int
  width :: int
  passed :: bool
  edge_width :: int

text \<open>\<open>rnd_gap\<close> is the value drawn by \<open>random.randint(150, WINDOW_HEIGHT - 150)\<close>.\<close>

definition Pipe_init :: "int \<Rightarrow> Pipe" where
  "Pipe_init rnd_gap =
     \<lparr>gap_y = rnd_gap, pipe_x = WINDOW_WIDTH, width = 80, passed = False, edge_width = 10\<rparr>"

definition Pipe_update :: "Pipe \<Rightarrow> Pipe \<times> bool" where
  "Pipe_update p =
     (let p' = p\<lparr>pipe_x := pipe_x p - PIPE_SPEED\<rparr> in (p', pipe_x p' > - width p'))"

definition Pipe_check_collision :: "Pipe \<Rightarrow> Bird \<Rightarrow> bool" where
  "Pipe_check_collision p bird =
     (let bird_rect = \<lparr>rect_x = bird_x bird, rect_y = trunc_int (bird_y bird),
                       rect_w = bird_size bird, rect_h = bird_size bird\<rparr>;
          top_pipe = \<lparr>rect_x = pipe_x p, rect_y = 0, rect_w = width p,
                      rect_h = gap_y p - PIPE_GAP div 2\<rparr>;
          bottom_pipe = \<lparr>rect_x = pipe_x p, rect_y = gap_y p + PIPE_GAP div 2, rect_w = width p,
                         rect_h = WINDOW_HEIGHT - (gap_y p + PIPE_GAP div 2)\<rparr>
      in colliderect bird_rect top_pipe \<or> colliderect bird_rect bottom_pipe)"

section \<open>Coin\<close>

record Coin =
  coin_x :: int
  coin_y :: real
  radius :: int
  is_special :: bool
  coin_value :: int
  color :: rgb
  glow_color :: rgb
  collected :: bool
  bob_range :: int
  bob_speed :: real
  start_y :: int
  time :: real
  glow_size :: real


definition Coin_update :: "Coin \<Rightarrow> Coin \<times> bool" where
  "Coin_update c =
     (let c1 = c\<lparr>coin_x := coin_x c - PIPE_SPEED\<rparr>;
          c2 = c1\<lparr>time := time c1 + bob_speed c1\<rparr>;
          c3 = c2\<lparr>coin_y := of_int (start_y c2) + sin (time c2) * of_int (bob_range c2)\<rparr>
      in (c3, coin_x c3 > - radius c3 * 2))"

definition Coin_check_collision :: "Coin \<Rightarrow> Bird \<Rightarrow> bool" where
  "Coin_check_collision c bird =
     (let bird_center = (of_int (bird_x bird + bird_size bird div 2) :: real,
                         bird_y bird + of_int (bird_size bird div 2));
          distance = ((fst bird_center - of_int (coin_x c))\<^sup>2
                      + (snd bird_center - coin_y c)\<^sup>2) powr 0.5
      in distance < of_int (radius c + bird_size bird div 2))"

section \<open>Shop\<close>

text \<open>
  The shop and the game hold the same \<open>Bird\<close> object, so the operations of the shop take
  the bird and the store beside the shop's own fields and return all three.
\<close>

record Shop =
  active :: bool
  shop_coins :: int
  button_height :: int
  button_width :: int
  margin :: int
  scroll_offset :: int
  scroll_speed :: int
  max_visible_items :: int

definition Shop_save_coins :: "Shop \<Rightarrow> Persistence \<Rightarrow> Persistence" where
  "Shop_save_coins shop db =
     (case set_state ''coins'' (str_int (shop_coins shop)) db of Inr db' \<Rightarrow> db' | Inl e \<Rightarrow> db)"

text \<open>
  What \<open>handle_click\<close> does for the button under the pointer (the body of
  \<open>if screen_rect.collidepoint(pos)\<close>, up to its \<open>return True\<close>).
\<close>

definition handle_click_button ::
    "string \<Rightarrow> int \<Rightarrow> Shop \<Rightarrow> Bird \<Rightarrow> Persistence \<Rightarrow> error + Shop \<times> Bird \<times> Persistence" where
  "handle_click_button skin_name price shop b db =
     (if skin_name \<in> owned_skins b then
        (case set_skin skin_name b db of
           Inl e \<Rightarrow> Inl e
         | Inr (b', db') \<Rightarrow> Inr (shop, b', db'))
      else if price \<le> shop_coins shop then
        (case purchase_skin skin_name (shop_coins shop) b db of
           (True, b1, db1) \<Rightarrow>
             (let shop1 = shop\<lparr>shop_coins := shop_coins shop - price\<rparr> in
              case set_skin skin_name b1 db1 of
                Inl e \<Rightarrow> Inl e
              | Inr (b2, db2) \<Rightarrow> Inr (shop1, b2, Shop_save_coins shop1 db2))
         | (False, b1, db1) \<Rightarrow> Inr (shop, b1, db1))
      else Inr (shop, b, db))"

text \<open>The loop over the catalog; \<open>None\<close> when no button is under the pointer.\<close>

fun handle_click_loop ::
    "int \<times> int \<Rightarrow> (string \<times> palette \<times> int) list \<Rightarrow> int \<Rightarrow> Shop \<Rightarrow> Bird \<Rightarrow> Persistence
     \<Rightarrow> (error + Shop \<times> Bird \<times> Persistence) option" where
  "handle_click_loop pos [] y_pos shop b db = None"
| "handle_click_loop pos ((skin_name, skin_data) # rest) y_pos shop b db =
     (let button_rect = \<lparr>rect_x = (WINDOW_WIDTH - button_width shop) div 2, rect_y = y_pos,
                         rect_w = button_width shop, rect_h = button_height shop\<rparr>;
          screen_rect = \<lparr>rect_x = rect_x button_rect,
                         rect_y = rect_y button_rect - scroll_offset shop + 100,
                         rect_w = rect_w button_rect, rect_h = rect_h button_rect\<rparr>
      in if collidepoint screen_rect pos
         then Some (handle_click_button skin_name (snd skin_data) shop b db)
         else handle_click_loop pos rest (y_pos + button_height shop + margin shop) shop b db)"

text \<open>
  \<open>click_rect\<close> is the rectangle of the exit button, which the library computes from the
  rendered text. The result carries the value \<open>handle_click\<close> returns.
\<close>

definition handle_click ::
    "int \<times> int \<Rightarrow> Rect \<Rightarrow> Shop \<Rightarrow> Bird \<Rightarrow> Persistence
     \<Rightarrow> error + bool \<times> Shop \<times> Bird \<times> Persistence" where
  "handle_click pos click_rect shop b db =
     (if \<not> active shop then Inr (False, shop, b, db)
      else
        (case handle_click_loop pos SKINS 0 shop b db of
           Some (Inl e) \<Rightarrow> Inl e
         | Some (Inr st) \<Rightarrow> Inr (True, st)
         | None \<Rightarrow>
             (if collidepoint click_rect pos then Inr (True, shop\<lparr>active := False\<rparr>, b, db)
              else Inr (False, shop, b, db))))"

section \<open>Game\<close>

record Game =
  bird :: Bird
  pipes :: "Pipe list"
  coins :: "Coin list"
  score :: int
  high_score :: int
  last_pipe :: int
  last_coin :: int
  game_over :: bool
  shop :: Shop

definition save_high_score :: "Game \<Rightarrow> Persistence \<Rightarrow> Game \<times> Persistence" where
  "save_high_score g db =
     (if score g > high_score g then
        (let g' = g\<lparr>high_score := score g\<rparr> in
         (g', (case set_state ''high_score'' (str_int (high_score g')) db of
                 Inr db' \<Rightarrow> db' | Inl e \<Rightarrow> db)))
      else (g, db))"

definition save_coins :: "Game \<Rightarrow> Persistence \<Rightarrow> Persistence" where
  "save_coins g db =
     (case set_state ''coins'' (str_int (shop_coins (shop g))) db of
        Inr db' \<Rightarrow> db' | Inl e \<Rightarrow> db)"






text \<open>
  One pass of the loop over the pipes. The result is the pipe as the loop leaves it and
  whether it was appended to \<open>surviving_pipes\<close>.
\<close>

definition pipe_step :: "Pipe \<Rightarrow> Game \<Rightarrow> Persistence \<Rightarrow> (Pipe \<times> bool) \<times> Game \<times> Persistence" where
  "pipe_step pipe g db =
     (case Pipe_update pipe of
        (pipe1, True) \<Rightarrow>
          (let (pipe2, g1) =
                 (if \<not> passed pipe1 \<and> pipe_x pipe1 < bird_x (bird g)
                  then (pipe1\<lparr>passed := True\<rparr>, g\<lparr>score := score g + 1\<rparr>)
                  else (pipe1, g));
               (g2, db2) =
                 (if Pipe_check_collision pipe2 (bird g1)
                  then save_high_score (g1\<lparr>game_over := True\<rparr>) db
                  else (g1, db))
           in ((pipe2, True), g2, db2))
      | (pipe1, False) \<Rightarrow> ((pipe1, False), g, db))"


text \<open>
  One pass of the loop over the coins: the coin as the loop leaves it and whether it was
  appended to \<open>surviving_coins\<close>.
\<close>

definition coin_step :: "Coin \<Rightarrow> Game \<Rightarrow> Persistence \<Rightarrow> (Coin \<times> bool) \<times> Game \<times> Persistence" where
  "coin_step coin g db =
     (if \<not> collected coin then
        (case Coin_update coin of
           (coin1, True) \<Rightarrow>
             (if Coin_check_collision coin1 (bird g) then
                (let coin2 = coin1\<lparr>collected := True\<rparr>;
                     g1 = g\<lparr>shop := (shop g)\<lparr>shop_coins := shop_coins (shop g) + coin_value coin2\<rparr>\<rparr>
                 in ((coin2, False), g1, save_coins g1 db))
              else ((coin1, True), g, db))
         | (coin1, False) \<Rightarrow> ((coin1, False), g, db))
      else ((coin, False), g, db))"

fun update_coins :: "Coin list \<Rightarrow> Game \<Rightarrow> Persistence \<Rightarrow> Coin list \<times> Game \<times> Persistence" where
  "update_coins [] g db = ([], g, db)"
| "update_coins (coin # rest) g db =
     (case coin_step coin g db of
        ((coin', keep), g1, db1) \<Rightarrow>
          (case update_coins rest g1 db1 of
             (surviving_coins, g2, db2) \<Rightarrow>
               ((if keep then coin' # surviving_coins else surviving_coins), g2, db2)))"



section \<open>Avatar physics\<close>

text \<open>
  C5: one \<open>Bird.update\<close> sets the velocity to \<open>min(velocity * ACCELERATION + GRAVITY,
  MAX_VELOCITY)\<close> when the velocity is positive and to \<open>velocity + GRAVITY\<close> otherwise,
  and then adds the new velocity to \<open>y\<close>. From velocity 0 and y 300 the step gives
  velocity 0.5 and y 300.5: velocity 0 is not positive, so plain gravity applies.
\<close>

theorem Bird_update_formula:
  "velocity (Bird_update b) =
     (if velocity b > 0 then min (velocity b * ACCELERATION + GRAVITY) (of_int MAX_VELOCITY)
      else velocity b + GRAVITY)
   \<and> bird_y (Bird_update b) = bird_y b + velocity (Bird_update b)
   \<and> (velocity b = 0 \<and> bird_y b = 300 \<longrightarrow>
        velocity (Bird_update b) = 0.5 \<and> bird_y (Bird_update b) = 300.5)"
  by (simp add: Bird_update_def Let_def GRAVITY_def)

theorem Bird_update_formula_witness:
  "velocity (Bird_update \<lparr>bird_x = 133, bird_y = 300, velocity = 0, bird_size = 30, angle = 0,
      current_skin = ''default'', owned_skins = {''default''}, colors = None\<rparr>) = 0.5
   \<and> bird_y (Bird_update \<lparr>bird_x = 133, bird_y = 300, velocity = 0, bird_size = 30, angle = 0,
      current_skin = ''default'', owned_skins = {''default''}, colors = None\<rparr>) = 300.5"
  using Bird_update_formula [of "\<lparr>bird_x = 133, bird_y = 300, velocity = 0, bird_size = 30,
      angle = 0, current_skin = ''default'', owned_skins = {''default''}, colors = None\<rparr>"]
  by simp

text \<open>
  C6: whatever the velocity before the step, the velocity after one \<open>Bird.update\<close> is at
  most \<open>MAX_VELOCITY\<close>.
\<close>

theorem velocity_le_MAX_VELOCITY: "velocity (Bird_update b) \<le> of_int MAX_VELOCITY"
  by (simp add: Bird_update_def Let_def GRAVITY_def MAX_VELOCITY_def)

theorem velocity_le_MAX_VELOCITY_witness:
  "velocity (Bird_update \<lparr>bird_x = 133, bird_y = 300, velocity = 9.9, bird_size = 30, angle = 0,
      current_skin = ''default'', owned_skins = {''default''}, colors = None\<rparr>) \<le> 10"
  using velocity_le_MAX_VELOCITY [of "\<lparr>bird_x = 133, bird_y = 300, velocity = 9.9,
      bird_size = 30, angle = 0, current_skin = ''default'', owned_skins = {''default''},
      colors = None\<rparr>"]
  by (simp add: MAX_VELOCITY_def)

lemma angle_flap: "angle (flap b) = 20"
  by (simp add: flap_def)

lemma angle_Bird_update:
  "- 70 \<le> angle b \<Longrightarrow> angle b \<le> 20
   \<Longrightarrow> - 70 \<le> angle (Bird_update b) \<and> angle (Bird_update b) \<le> 20"
  by (simp add: Bird_update_def Let_def)

lemma angle_bird_ops:
  "- 70 \<le> angle b \<Longrightarrow> angle b \<le> 20
   \<Longrightarrow> - 70 \<le> angle (bird_ops ops b) \<and> angle (bird_ops ops b) \<le> 20"
proof (induction ops b rule: bird_ops.induct)
  case (1 b)
  then show ?case by simp
next
  case (2 ops b)
  then show ?case by (simp add: angle_flap)
next
  case (3 ops b)
  then show ?case using angle_Bird_update [of b] by simp
qed

lemma Bird_init_angle: "Bird_init db = Inr b \<Longrightarrow> angle b = 0"
  by (auto simp: Bird_init_def Let_def apply_skin_def load_current_skin_def
      load_owned_skins_def split: option.splits sum.splits if_splits prod.splits)

text \<open>
  C10: a freshly constructed bird has angle 0, and after any sequence of \<open>flap\<close> and
  \<open>update\<close> calls its angle lies between -70 and 20.
\<close>

theorem angle_in_range:
  "Bird_init db = Inr b
   \<Longrightarrow> angle b = 0 \<and> - 70 \<le> angle (bird_ops ops b) \<and> angle (bird_ops ops b) \<le> 20"
  using angle_bird_ops [of b ops] Bird_init_angle [of db b] by simp

lemma Bird_init_empty_store:
  "Bird_init \<lparr>state_tbl = Map.empty, owned_skins_tbl = {}, conn_ok = True\<rparr> =
     Inr \<lparr>bird_x = 133, bird_y = 300, velocity = 0, bird_size = 30, angle = 0,
          current_skin = ''default'', owned_skins = {''default''},
          colors = Some \<lparr>body = (255, 185, 0), wing = (255, 140, 0), beak = (255, 69, 0),
                         eye = (0, 0, 0)\<rparr>\<rparr>"
  by (simp add: Bird_init_def Let_def apply_skin_def load_current_skin_def
      load_owned_skins_def get_state_def get_owned_skins_def SKINS_def BLACK_def
      WINDOW_WIDTH_def WINDOW_HEIGHT_def)

theorem angle_in_range_witness:
  "angle (bird_ops [Update, Update, Flap, Update]
      \<lparr>bird_x = 133, bird_y = 300, velocity = 0, bird_size = 30, angle = 0,
       current_skin = ''default'', owned_skins = {''default''},
       colors = Some \<lparr>body = (255, 185, 0), wing = (255, 140, 0), beak = (255, 69, 0),
                      eye = (0, 0, 0)\<rparr>\<rparr>) \<in> {- 70 .. 20}"
  using angle_in_range [OF Bird_init_empty_store, of "[Update, Update, Flap, Update]"]
  by simp


section \<open>Ownership of skins\<close>

text \<open>The invariant of the data model: the default skin is owned, and so is the equipped one.\<close>

definition skins_inv :: "Bird \<Rightarrow> bool" where
  "skins_inv b = (''default'' \<in> owned_skins b \<and> current_skin b \<in> owned_skins b)"

lemma default_in_SKINS: "\<exists>pal price. map_of SKINS ''default'' = Some (pal, price)"
  by (simp add: SKINS_def)

lemma in_SKINS_lookup:
  "s \<in> fst ` set SKINS \<Longrightarrow> \<exists>pal price. map_of SKINS s = Some (pal, price)"
proof -
  assume "s \<in> fst ` set SKINS"
  then have "s \<in> dom (map_of SKINS)"
    by (simp add: dom_map_of_conv_image_fst)
  then obtain v where "map_of SKINS s = Some v"
    by blast
  then show ?thesis
    by (cases v) simp
qed

lemma load_owned_skins_default: "''default'' \<in> owned_skins (load_owned_skins db b)"
  by (simp add: load_owned_skins_def get_owned_skins_def Let_def)

lemma load_owned_skins_current: "current_skin (load_owned_skins db b) = current_skin b"
  by (simp add: load_owned_skins_def get_owned_skins_def Let_def)

lemma load_current_skin_inv:
  "''default'' \<in> owned_skins b \<Longrightarrow> current_skin b \<in> owned_skins b
   \<Longrightarrow> skins_inv (load_current_skin db b)"
  by (simp add: load_current_skin_def get_state_def skins_inv_def split: option.splits)

lemma load_current_skin_known:
  assumes "map_of SKINS (current_skin b) \<noteq> None"
  shows "map_of SKINS (current_skin (load_current_skin db b)) \<noteq> None"
proof (cases "conn_ok db")
  case False
  then show ?thesis
    using default_in_SKINS by (auto simp: load_current_skin_def get_state_def)
next
  case True
  show ?thesis
  proof (cases "state_tbl db ''current_skin''")
    case None
    then show ?thesis
      using True assms by (simp add: load_current_skin_def get_state_def)
  next
    case (Some s)
    show ?thesis
    proof (cases "s \<noteq> [] \<and> s \<in> fst ` set SKINS \<and> s \<in> owned_skins b")
      case yes: True
      then obtain pal price where "map_of SKINS s = Some (pal, price)"
        using in_SKINS_lookup by blast
      then show ?thesis
        using True Some yes by (simp add: load_current_skin_def get_state_def)
    next
      case no: False
      then show ?thesis
        using True Some assms by (auto simp: load_current_skin_def get_state_def)
    qed
  qed
qed

lemma apply_skin_fields:
  "apply_skin s b = Inr b'
   \<Longrightarrow> owned_skins b' = owned_skins b \<and> current_skin b' = current_skin b"
  by (auto simp: apply_skin_def split: option.splits)

lemma Bird_init_inv: "\<exists>b. Bird_init db = Inr b \<and> skins_inv b"
proof -
  let ?b0 = "\<lparr>bird_x = WINDOW_WIDTH div 3, bird_y = of_int (WINDOW_HEIGHT div 2),
      velocity = 0, bird_size = 30, angle = 0, current_skin = ''default'',
      owned_skins = {''default''}, colors = None\<rparr>"
  let ?b1 = "load_owned_skins db ?b0"
  let ?b2 = "load_current_skin db ?b1"
  have cur1: "current_skin ?b1 = ''default''"
    by (simp add: load_owned_skins_current)
  have inv2: "skins_inv ?b2"
    using load_owned_skins_default [of db ?b0] cur1 by (simp add: load_current_skin_inv)
  have "map_of SKINS (current_skin ?b1) \<noteq> None"
    using cur1 default_in_SKINS by auto
  then have "map_of SKINS (current_skin ?b2) \<noteq> None"
    by (rule load_current_skin_known)
  then obtain pal price where look: "map_of SKINS (current_skin ?b2) = Some (pal, price)"
    by auto
  have init: "Bird_init db = Inr (?b2\<lparr>colors := Some pal\<rparr>)"
    using look by (simp add: Bird_init_def Let_def apply_skin_def)
  moreover have "skins_inv (?b2\<lparr>colors := Some pal\<rparr>)"
    using inv2 by (simp add: skins_inv_def)
  ultimately show ?thesis by blast
qed

lemma set_skin_inv:
  assumes "skins_inv b"
  shows "\<exists>b' db'. set_skin s b db = Inr (b', db') \<and> skins_inv b'
     \<and> owned_skins b' = owned_skins b
     \<and> current_skin b' =
         (if s \<in> fst ` set SKINS \<and> s \<in> owned_skins b then s else current_skin b)"
proof (cases "s \<in> fst ` set SKINS \<and> s \<in> owned_skins b")
  case True
  then obtain pal price where "map_of SKINS s = Some (pal, price)"
    using in_SKINS_lookup by blast
  then show ?thesis
    using True assms by (simp add: set_skin_def apply_skin_def skins_inv_def)
next
  case False
  then show ?thesis
    using assms by (auto simp: set_skin_def)
qed

lemma purchase_skin_inv:
  "skins_inv b \<Longrightarrow> purchase_skin s c b db = (ok, b', db')
   \<Longrightarrow> skins_inv b' \<and> owned_skins b \<subseteq> owned_skins b' \<and> current_skin b' = current_skin b"
  by (auto simp: purchase_skin_def skins_inv_def split: option.splits if_splits)

lemma flap_skins: "skins_inv (flap b) = skins_inv b"
  by (simp add: flap_def skins_inv_def)

lemma Bird_update_skins: "skins_inv (Bird_update b) = skins_inv b"
  by (simp add: Bird_update_def Let_def skins_inv_def)

text \<open>
  C9: the owned set contains the default skin and the equipped skin is owned. This holds
  for every bird that \<open>Bird.__init__\<close> builds, whatever the store holds (and the
  constructor never raises), and \<open>set_skin\<close>, \<open>purchase_skin\<close>, \<open>flap\<close> and \<open>update\<close>
  keep it: \<open>set_skin\<close> equips only a catalog skin that is owned and never raises,
  \<open>purchase_skin\<close> only adds to the owned set.
\<close>

theorem skins_invariant:
  "(\<exists>b0. Bird_init db = Inr b0 \<and> skins_inv b0)
   \<and> (skins_inv b \<longrightarrow>
        (\<exists>b' db'. set_skin s b db = Inr (b', db') \<and> skins_inv b'
           \<and> owned_skins b' = owned_skins b
           \<and> current_skin b' =
               (if s \<in> fst ` set SKINS \<and> s \<in> owned_skins b then s else current_skin b))
        \<and> skins_inv (fst (snd (purchase_skin s c b db)))
        \<and> owned_skins b \<subseteq> owned_skins (fst (snd (purchase_skin s c b db)))
        \<and> skins_inv (flap b) \<and> skins_inv (Bird_update b))"
proof -
  obtain ok b1 db1 where p: "purchase_skin s c b db = (ok, b1, db1)"
    by (cases "purchase_skin s c b db") auto
  show ?thesis
    using Bird_init_inv [of db] set_skin_inv [of b s db] purchase_skin_inv [OF _ p]
    by (simp add: p flap_skins Bird_update_skins)
qed

theorem skins_invariant_witness:
  "skins_inv \<lparr>bird_x = 133, bird_y = 300, velocity = 0, bird_size = 30, angle = 0,
      current_skin = ''default'', owned_skins = {''default'', ''ninja''}, colors = None\<rparr>
   \<and> skins_inv (fst (snd (purchase_skin ''ghost'' 175
        \<lparr>bird_x = 133, bird_y = 300, velocity = 0, bird_size = 30, angle = 0,
         current_skin = ''default'', owned_skins = {''default'', ''ninja''}, colors = None\<rparr>
        \<lparr>state_tbl = Map.empty, owned_skins_tbl = {''ninja''}, conn_ok = True\<rparr>)))
   \<and> skins_inv (Bird_update
        \<lparr>bird_x = 133, bird_y = 300, velocity = 0, bird_size = 30, angle = 0,
         current_skin = ''default'', owned_skins = {''default'', ''ninja''}, colors = None\<rparr>)"
proof -
  let ?b = "\<lparr>bird_x = 133, bird_y = 300, velocity = 0, bird_size = 30, angle = 0,
      current_skin = ''default'', owned_skins = {''default'', ''ninja''}, colors = None\<rparr>"
  let ?db = "\<lparr>state_tbl = Map.empty, owned_skins_tbl = {''ninja''}, conn_ok = True\<rparr>"
  have h: "skins_inv ?b"
    by (simp add: skins_inv_def)
  show ?thesis
    using h skins_invariant [of ?db ?b "''ghost''" 175] by blast
qed


section \<open>Coins\<close>

text \<open>The Euclidean distance between two points of the plane.\<close>

definition euclidean :: "real \<times> real \<Rightarrow> real \<times> real \<Rightarrow> real" where
  "euclidean p q = sqrt ((fst p - fst q)\<^sup>2 + (snd p - snd q)\<^sup>2)"

lemma Coin_distance:
  "((x1 - x2)\<^sup>2 + (y1 - y2)\<^sup>2) powr 0.5 = euclidean (x1, y1) (x2, y2)"
proof -
  have "0 \<le> (x1 - x2)\<^sup>2 + (y1 - y2)\<^sup>2"
    by simp
  then have "((x1 - x2)\<^sup>2 + (y1 - y2)\<^sup>2) powr (1 / 2) = sqrt ((x1 - x2)\<^sup>2 + (y1 - y2)\<^sup>2)"
    by (rule powr_half_sqrt)
  then show ?thesis
    by (simp add: euclidean_def)
qed

lemma Coin_check_collision_dist:
  "Coin_check_collision c b \<longleftrightarrow>
     euclidean (of_int (bird_x b + bird_size b div 2) :: real, bird_y b + of_int (bird_size b div 2))
          (of_int (coin_x c), coin_y c)
       < of_int (radius c + bird_size b div 2)"
  unfolding Coin_check_collision_def Let_def fst_conv snd_conv Coin_distance ..

lemma Coin_update_value:
  "coin_value (fst (Coin_update c)) = coin_value c
   \<and> is_special (fst (Coin_update c)) = is_special c"
  by (simp add: Coin_update_def Let_def)




section \<open>Game over\<close>





lemma coin_step_frame:
  "coin_step c g db = ((c', keep), g', db')
   \<Longrightarrow> game_over g' = game_over g \<and> score g' = score g \<and> bird g' = bird g
       \<and> high_score g' = high_score g \<and> conn_ok db' = conn_ok db"
  by (cases "Coin_update c")
     (auto simp: coin_step_def save_coins_def set_state_def Let_def split: if_splits bool.splits)









text \<open>A bird that one step carries to \<open>y = 0\<close> exactly, in a game with score 3 and high score 2.\<close>

definition edge_game :: Game where
  "edge_game =
     \<lparr>bird = \<lparr>bird_x = 133, bird_y = 5.5, velocity = - 6, bird_size = 30, angle = 20,
               current_skin = ''default'', owned_skins = {''default''}, colors = None\<rparr>,
      pipes = [], coins = [], score = 3, high_score = 2, last_pipe = 0, last_coin = 0,
      game_over = False,
      shop = \<lparr>active = False, shop_coins = 0, button_height = 50, button_width = 200,
               margin = 10, scroll_offset = 0, scroll_speed = 20, max_visible_items = 6\<rparr>\<rparr>"

definition empty_store :: Persistence where
  "empty_store = \<lparr>state_tbl = Map.empty, owned_skins_tbl = {}, conn_ok = True\<rparr>"






section \<open>The tick on which the bird leaves the screen\<close>









section \<open>Scoring a passed pipe\<close>

text \<open>
  The points one pipe earns over successive ticks: the pipe is taken through the loop body
  of \<open>update\<close> once per tick, each time with the game state of that tick, for as long
  as it stays in \<open>surviving_pipes\<close>.
\<close>

fun pipe_awards :: "Pipe \<Rightarrow> (Game \<times> Persistence) list \<Rightarrow> int" where
  "pipe_awards p [] = 0"
| "pipe_awards p ((g, db) # rest) =
     (case pipe_step p g db of
        ((p', keep), g', db') \<Rightarrow>
          (score g' - score g) + (if keep then pipe_awards p' rest else 0))"

lemma pipe_step_dropped:
  assumes "\<not> pipe_x p - PIPE_SPEED > - width p"
  shows "pipe_step p g db = ((p\<lparr>pipe_x := pipe_x p - PIPE_SPEED\<rparr>, False), g, db)"
  using assms by (simp add: pipe_step_def Pipe_update_def Let_def)

lemma pipe_step_alive_fst:
  assumes "pipe_x p - PIPE_SPEED > - width p"
  shows "fst (pipe_step p g db) =
           (p\<lparr>pipe_x := pipe_x p - PIPE_SPEED,
              passed := passed p \<or> pipe_x p - PIPE_SPEED < bird_x (bird g)\<rparr>, True)"
  using assms
  by (simp add: pipe_step_def Pipe_update_def Let_def save_high_score_def split: prod.splits)

lemma pipe_step_alive_score:
  assumes "pipe_x p - PIPE_SPEED > - width p"
  shows "score (fst (snd (pipe_step p g db))) = score g
           + (if \<not> passed p \<and> pipe_x p - PIPE_SPEED < bird_x (bird g) then 1 else 0)"
  using assms
  by (simp add: pipe_step_def Pipe_update_def Let_def save_high_score_def split: prod.splits)

lemma pipe_step_alive:
  assumes "pipe_x p - PIPE_SPEED > - width p"
  shows "\<exists>g' db'. pipe_step p g db =
           ((p\<lparr>pipe_x := pipe_x p - PIPE_SPEED,
               passed := passed p \<or> pipe_x p - PIPE_SPEED < bird_x (bird g)\<rparr>, True), g', db')
         \<and> score g' = score g
             + (if \<not> passed p \<and> pipe_x p - PIPE_SPEED < bird_x (bird g) then 1 else 0)"
proof -
  obtain r g' db' where s: "pipe_step p g db = (r, g', db')"
    by (metis prod.exhaust)
  have "r = (p\<lparr>pipe_x := pipe_x p - PIPE_SPEED,
      passed := passed p \<or> pipe_x p - PIPE_SPEED < bird_x (bird g)\<rparr>, True)"
    using pipe_step_alive_fst [OF assms, of g db] s by simp
  moreover have "score g' = score g
      + (if \<not> passed p \<and> pipe_x p - PIPE_SPEED < bird_x (bird g) then 1 else 0)"
    using pipe_step_alive_score [OF assms, of g db] s by simp
  ultimately show ?thesis
    using s by blast
qed

lemma pipe_step_score:
  assumes "pipe_step p g db = ((p', keep), g', db')"
  shows "score g' = score g + (if \<not> passed p \<and> passed p' then 1 else 0)
         \<and> (passed p \<longrightarrow> passed p')"
proof (cases "pipe_x p - PIPE_SPEED > - width p")
  case True
  from pipe_step_alive [OF True, of g db] show ?thesis
    using assms by auto
next
  case False
  from pipe_step_dropped [OF False, of g db] show ?thesis
    using assms by auto
qed

lemma pipe_awards_passed: "passed p \<Longrightarrow> pipe_awards p gs = 0"
proof (induction gs arbitrary: p)
  case Nil
  then show ?case by simp
next
  case (Cons a gs)
  obtain g db where a: "a = (g, db)"
    by (cases a)
  obtain p' keep g' db' where s: "pipe_step p g db = ((p', keep), g', db')"
    by (metis prod.exhaust)
  have "score g' = score g" and "passed p'"
    using pipe_step_score [OF s] Cons.prems by simp_all
  then show ?case
    using a s Cons.IH [of p'] by simp
qed

lemma pipe_awards_range: "0 \<le> pipe_awards p gs \<and> pipe_awards p gs \<le> 1"
proof (induction gs arbitrary: p)
  case Nil
  then show ?case by simp
next
  case (Cons a gs)
  obtain g db where a: "a = (g, db)"
    by (cases a)
  obtain p' keep g' db' where s: "pipe_step p g db = ((p', keep), g', db')"
    by (metis prod.exhaust)
  show ?case
  proof (cases "\<not> passed p \<and> passed p'")
    case True
    then have "score g' - score g = 1" and "pipe_awards p' gs = 0"
      using pipe_step_score [OF s] pipe_awards_passed [of p' gs] by simp_all
    then show ?thesis
      using a s by simp
  next
    case False
    then have "score g' - score g = 0"
      using pipe_step_score [OF s] by simp
    then show ?thesis
      using a s Cons.IH [of p'] by simp
  qed
qed

lemma pipe_awards_once:
  assumes "\<not> passed p"
      and "\<forall>(g, db) \<in> set gs. bird_x (bird g) = bx"
      and "bx \<le> pipe_x p" and "- width p < bx - PIPE_SPEED"
      and "pipe_x p - bx < PIPE_SPEED * int (length gs)"
  shows "pipe_awards p gs = 1"
  using assms
proof (induction gs arbitrary: p)
  case Nil
  then show ?case by simp
next
  case (Cons a gs)
  obtain g db where a: "a = (g, db)"
    by (cases a)
  have bx: "bird_x (bird g) = bx"
    using Cons.prems(2) a by simp
  have alive: "pipe_x p - PIPE_SPEED > - width p"
    using Cons.prems(3,4) by simp
  let ?p' = "p\<lparr>pipe_x := pipe_x p - PIPE_SPEED,
      passed := passed p \<or> pipe_x p - PIPE_SPEED < bird_x (bird g)\<rparr>"
  obtain g' db' where s: "pipe_step p g db = ((?p', True), g', db')"
    and sc: "score g' = score g
      + (if \<not> passed p \<and> pipe_x p - PIPE_SPEED < bird_x (bird g) then 1 else 0)"
    using pipe_step_alive [OF alive, of g db] by blast
  show ?case
  proof (cases "pipe_x p - PIPE_SPEED < bx")
    case True
    then have "passed ?p'" and "score g' - score g = 1"
      using bx sc Cons.prems(1) by simp_all
    then show ?thesis
      using a s pipe_awards_passed [of ?p' gs] by simp
  next
    case False
    have "\<not> passed ?p'" and "score g' - score g = 0"
      using False bx sc Cons.prems(1) by simp_all
    moreover have "pipe_awards ?p' gs = 1"
    proof (rule Cons.IH)
      show "\<not> passed ?p'" using False bx Cons.prems(1) by simp
      show "\<forall>(g, db) \<in> set gs. bird_x (bird g) = bx" using Cons.prems(2) by simp
      show "bx \<le> pipe_x ?p'" using False by simp
      show "- width ?p' < bx - PIPE_SPEED" using Cons.prems(4) by simp
      show "pipe_x ?p' - bx < PIPE_SPEED * int (length gs)"
        using Cons.prems(5) by (simp add: algebra_simps)
    qed
    ultimately show ?thesis
      using a s by simp
  qed
qed

text \<open>
  C3: one pass of the loop body raises the score by exactly 1 when it sets the pipe's
  \<open>passed\<close> flag and leaves the score alone otherwise, and the flag, once set, stays set.
  So over any number of ticks, whatever the game states, a pipe earns at most one point,
  and none once its flag is set. A freshly created pipe earns exactly one point over any
  run of ticks long enough for it to move behind the bird, which stays at
  \<open>x = WINDOW_WIDTH // 3\<close>, however many ticks follow.
\<close>

theorem pipe_scored_once:
  "(pipe_step p g db = ((p', keep), g', db') \<longrightarrow>
      score g' = score g + (if \<not> passed p \<and> passed p' then 1 else 0)
      \<and> (passed p \<longrightarrow> passed p'))
   \<and> 0 \<le> pipe_awards p gs \<and> pipe_awards p gs \<le> 1
   \<and> (passed p \<longrightarrow> pipe_awards p gs = 0)
   \<and> ((\<forall>(g, db) \<in> set gs. bird_x (bird g) = WINDOW_WIDTH div 3)
        \<and> WINDOW_WIDTH - WINDOW_WIDTH div 3 < PIPE_SPEED * int (length gs)
        \<longrightarrow> pipe_awards (Pipe_init rnd) gs = 1)"
proof -
  have fresh: "(\<forall>(g, db) \<in> set gs. bird_x (bird g) = WINDOW_WIDTH div 3)
      \<and> WINDOW_WIDTH - WINDOW_WIDTH div 3 < PIPE_SPEED * int (length gs)
      \<longrightarrow> pipe_awards (Pipe_init rnd) gs = 1"
  proof
    assume h: "(\<forall>(g, db) \<in> set gs. bird_x (bird g) = WINDOW_WIDTH div 3)
      \<and> WINDOW_WIDTH - WINDOW_WIDTH div 3 < PIPE_SPEED * int (length gs)"
    show "pipe_awards (Pipe_init rnd) gs = 1"
    proof (rule pipe_awards_once [where bx = "WINDOW_WIDTH div 3"])
      show "\<not> passed (Pipe_init rnd)" by (simp add: Pipe_init_def)
      show "\<forall>(g, db) \<in> set gs. bird_x (bird g) = WINDOW_WIDTH div 3" using h by simp
      show "WINDOW_WIDTH div 3 \<le> pipe_x (Pipe_init rnd)"
        by (simp add: Pipe_init_def WINDOW_WIDTH_def)
      show "- width (Pipe_init rnd) < WINDOW_WIDTH div 3 - PIPE_SPEED"
        by (simp add: Pipe_init_def WINDOW_WIDTH_def PIPE_SPEED_def)
      show "pipe_x (Pipe_init rnd) - WINDOW_WIDTH div 3 < PIPE_SPEED * int (length gs)"
        using h by (simp add: Pipe_init_def)
    qed
  qed
  show ?thesis
    using pipe_step_score [of p g db p' keep g' db'] pipe_awards_range [of p gs]
      pipe_awards_passed [of p gs] fresh
    by blast
qed

theorem pipe_scored_once_witness:
  "pipe_awards (Pipe_init 300) (replicate 100 (edge_game, empty_store)) = 1
   \<and> pipe_awards ((Pipe_init 300)\<lparr>passed := True\<rparr>) (replicate 100 (edge_game, empty_store)) = 0"
proof -
  let ?gs = "replicate 100 (edge_game, empty_store)"
  have h: "(\<forall>(g, db) \<in> set ?gs. bird_x (bird g) = WINDOW_WIDTH div 3)
      \<and> WINDOW_WIDTH - WINDOW_WIDTH div 3 < PIPE_SPEED * int (length ?gs)"
    by (simp add: edge_game_def WINDOW_WIDTH_def PIPE_SPEED_def)
  have p: "passed ((Pipe_init 300)\<lparr>passed := True\<rparr>)"
    by simp
  show ?thesis
    using h p
      pipe_scored_once [where p = "(Pipe_init 300)\<lparr>passed := True\<rparr>" and gs = ?gs and rnd = 300]
    by blast
qed


section \<open>Collecting coins\<close>

text \<open>
  The condition under which the loop body marks a coin as collected: the coin was not
  collected before, is still on screen after its \<open>update\<close>, and then touches the bird.
\<close>

definition collects :: "Coin \<Rightarrow> Bird \<Rightarrow> bool" where
  "collects c b =
     (\<not> collected c \<and> snd (Coin_update c) \<and> Coin_check_collision (fst (Coin_update c)) b)"

text \<open>The store holds the balance that the shop has in memory.\<close>

definition coins_saved :: "Game \<Rightarrow> Persistence \<Rightarrow> bool" where
  "coins_saved g db = (state_tbl db ''coins'' = Some (str_int (shop_coins (shop g))))"

lemma coin_step_collects:
  assumes "collects c (bird g)"
  shows "coin_step c g db =
     (((fst (Coin_update c))\<lparr>collected := True\<rparr>, False),
      g\<lparr>shop := (shop g)\<lparr>shop_coins := shop_coins (shop g) + coin_value c\<rparr>\<rparr>,
      save_coins (g\<lparr>shop := (shop g)\<lparr>shop_coins := shop_coins (shop g) + coin_value c\<rparr>\<rparr>) db)"
proof -
  obtain c1 where u: "Coin_update c = (c1, True)"
    using assms by (cases "Coin_update c") (auto simp: collects_def)
  have "coin_value c1 = coin_value c"
    using Coin_update_value [of c] u by simp
  then show ?thesis
    using assms u by (simp add: coin_step_def collects_def Let_def)
qed

lemma coin_step_misses:
  assumes "\<not> collects c (bird g)"
  shows "snd (coin_step c g db) = (g, db)
         \<and> collected (fst (fst (coin_step c g db))) = collected c"
proof (cases "collected c")
  case True
  then show ?thesis by (simp add: coin_step_def)
next
  case False
  obtain c1 alive where u: "Coin_update c = (c1, alive)"
    by (metis prod.exhaust)
  have "collected c1 = collected c"
    using u by (auto simp: Coin_update_def Let_def)
  then show ?thesis
    using assms False u by (cases alive) (auto simp: coin_step_def collects_def)
qed

lemma save_coins_saved: "conn_ok db \<Longrightarrow> coins_saved g (save_coins g db)"
  by (simp add: coins_saved_def save_coins_def set_state_def)

lemma save_coins_conn: "conn_ok (save_coins g db) = conn_ok db"
  by (simp add: save_coins_def set_state_def)

lemma coin_step_saved:
  assumes "conn_ok db" and "coins_saved g db"
  shows "coins_saved (fst (snd (coin_step c g db))) (snd (snd (coin_step c g db)))"
proof (cases "collects c (bird g)")
  case True
  then show ?thesis
    using assms(1) by (simp add: coin_step_collects save_coins_saved)
next
  case False
  then show ?thesis
    using assms(2) coin_step_misses [OF False, of db] by simp
qed

lemma update_coins_saved:
  "conn_ok db \<Longrightarrow> coins_saved g db
   \<Longrightarrow> coins_saved (fst (snd (update_coins cs g db))) (snd (snd (update_coins cs g db)))"
proof (induction cs arbitrary: g db)
  case Nil
  then show ?case by simp
next
  case (Cons c cs)
  obtain r g1 db1 where s: "coin_step c g db = (r, g1, db1)"
    by (metis prod.exhaust)
  obtain c1 keep where r: "r = (c1, keep)"
    by (cases r)
  have "conn_ok db1"
    using coin_step_frame [of c g db c1 keep g1 db1] s r Cons.prems(1) by simp
  moreover have "coins_saved g1 db1"
    using coin_step_saved [OF Cons.prems, of c] s by simp
  ultimately have "coins_saved (fst (snd (update_coins cs g1 db1))) (snd (snd (update_coins cs g1 db1)))"
    by (rule Cons.IH)
  then show ?case
    using s r by (simp add: split_beta)
qed

lemma update_coins_saved_after_hit:
  "conn_ok db \<Longrightarrow> \<exists>c \<in> set cs. collects c (bird g)
   \<Longrightarrow> coins_saved (fst (snd (update_coins cs g db))) (snd (snd (update_coins cs g db)))"
proof (induction cs arbitrary: g db)
  case Nil
  then show ?case by simp
next
  case (Cons c cs)
  obtain r g1 db1 where s: "coin_step c g db = (r, g1, db1)"
    by (metis prod.exhaust)
  obtain c1 keep where r: "r = (c1, keep)"
    by (cases r)
  have fr: "conn_ok db1" "bird g1 = bird g"
    using coin_step_frame [of c g db c1 keep g1 db1] s r Cons.prems(1) by simp_all
  have "coins_saved (fst (snd (update_coins cs g1 db1))) (snd (snd (update_coins cs g1 db1)))"
  proof (cases "collects c (bird g)")
    case True
    then have "coins_saved g1 db1"
      using s Cons.prems(1) by (auto simp: coin_step_collects save_coins_saved)
    with fr(1) show ?thesis
      by (rule update_coins_saved)
  next
    case False
    then have "\<exists>c \<in> set cs. collects c (bird g1)"
      using Cons.prems(2) fr(2) by auto
    with fr(1) show ?thesis
      by (rule Cons.IH)
  qed
  then show ?case
    using s r by (simp add: split_beta)
qed

lemma update_coins_total:
  "shop_coins (shop (fst (snd (update_coins cs g db)))) =
     shop_coins (shop g) + (\<Sum>c \<leftarrow> filter (\<lambda>c. collects c (bird g)) cs. coin_value c)"
proof (induction cs arbitrary: g db)
  case Nil
  then show ?case by simp
next
  case (Cons c cs)
  obtain r g1 db1 where s: "coin_step c g db = (r, g1, db1)"
    by (metis prod.exhaust)
  obtain c1 keep where r: "r = (c1, keep)"
    by (cases r)
  have b: "bird g1 = bird g"
    using coin_step_frame [of c g db c1 keep g1 db1] s r by simp
  have g1: "shop_coins (shop g1) =
      shop_coins (shop g) + (if collects c (bird g) then coin_value c else 0)"
  proof (cases "collects c (bird g)")
    case True
    then show ?thesis using s by (auto simp: coin_step_collects)
  next
    case False
    then show ?thesis using s coin_step_misses [OF False, of db] by simp
  qed
  have "shop_coins (shop (fst (snd (update_coins (c # cs) g db)))) =
      shop_coins (shop (fst (snd (update_coins cs g1 db1))))"
    using s r by (simp add: split_beta)
  then show ?case
    using Cons.IH [of g1 db1] g1 b by simp
qed

text \<open>
  C4: the loop body sets a coin's \<open>collected\<close> flag exactly when the coin is collected on
  this tick, and then, within the same pass, the balance grows by exactly the coin's value
  and \<open>save_coins\<close> writes the new balance (a store that accepts writes then holds it);
  otherwise the pass changes neither game nor store. The later coins of the loop are
  processed from the game and the store this pass has left, so the write comes before any
  later collection. Over the whole loop the balance grows by the sum of the values of the
  coins collected, and once a coin was collected a working store holds the final balance.
\<close>

theorem coin_collected_paid:
  "(collected (fst (fst (coin_step c g db))) \<and> \<not> collected c \<longleftrightarrow> collects c (bird g))
   \<and> (collects c (bird g) \<longrightarrow>
        shop_coins (shop (fst (snd (coin_step c g db)))) = shop_coins (shop g) + coin_value c
        \<and> snd (snd (coin_step c g db)) = save_coins (fst (snd (coin_step c g db))) db
        \<and> (conn_ok db \<longrightarrow>
             state_tbl (snd (snd (coin_step c g db))) ''coins''
               = Some (str_int (shop_coins (shop g) + coin_value c))))
   \<and> (\<not> collects c (bird g) \<longrightarrow> snd (coin_step c g db) = (g, db))
   \<and> snd (update_coins (c # cs) g db) =
       snd (update_coins cs (fst (snd (coin_step c g db))) (snd (snd (coin_step c g db))))
   \<and> shop_coins (shop (fst (snd (update_coins cs g db)))) =
       shop_coins (shop g) + (\<Sum>c \<leftarrow> filter (\<lambda>c. collects c (bird g)) cs. coin_value c)
   \<and> (conn_ok db \<and> (\<exists>c \<in> set cs. collects c (bird g)) \<longrightarrow>
        coins_saved (fst (snd (update_coins cs g db))) (snd (snd (update_coins cs g db))))"
proof -
  have flag: "collected (fst (fst (coin_step c g db))) \<and> \<not> collected c \<longleftrightarrow> collects c (bird g)"
  proof (cases "collects c (bird g)")
    case True
    then show ?thesis
      by (simp add: coin_step_collects) (simp add: collects_def)
  next
    case False
    then show ?thesis
      using coin_step_misses [OF False, of db] by simp
  qed
  have paid: "collects c (bird g) \<longrightarrow>
      shop_coins (shop (fst (snd (coin_step c g db)))) = shop_coins (shop g) + coin_value c
      \<and> snd (snd (coin_step c g db)) = save_coins (fst (snd (coin_step c g db))) db
      \<and> (conn_ok db \<longrightarrow>
           state_tbl (snd (snd (coin_step c g db))) ''coins''
             = Some (str_int (shop_coins (shop g) + coin_value c)))"
    by (simp add: coin_step_collects save_coins_def set_state_def)
  have missed: "\<not> collects c (bird g) \<longrightarrow> snd (coin_step c g db) = (g, db)"
    using coin_step_misses [of c g db] by simp
  have order: "snd (update_coins (c # cs) g db) =
      snd (update_coins cs (fst (snd (coin_step c g db))) (snd (snd (coin_step c g db))))"
    by (simp add: split_beta)
  show ?thesis
    using flag paid missed order update_coins_total [of cs g db]
      update_coins_saved_after_hit [of db cs g]
    by blast
qed

text \<open>A coin that its next \<open>update\<close> puts on the centre of the bird.\<close>

definition centre_coin :: Coin where
  "centre_coin =
     \<lparr>coin_x = 151, coin_y = 300, radius = 10, is_special = False, coin_value = 5,
      color = (255, 215, 0), glow_color = (255, 228, 181), collected = False, bob_range = 20,
      bob_speed = 0.05, start_y = 300, time = - 0.05, glow_size = 0\<rparr>"

definition coin_game :: Game where
  "coin_game =
     \<lparr>bird = \<lparr>bird_x = 133, bird_y = 285, velocity = 0, bird_size = 30, angle = 0,
               current_skin = ''default'', owned_skins = {''default''}, colors = None\<rparr>,
      pipes = [], coins = [centre_coin], score = 0, high_score = 0, last_pipe = 0,
      last_coin = 0, game_over = False,
      shop = \<lparr>active = False, shop_coins = 0, button_height = 50, button_width = 200,
               margin = 10, scroll_offset = 0, scroll_speed = 20, max_visible_items = 6\<rparr>\<rparr>"

theorem coin_collected_paid_witness:
  "collects centre_coin (bird coin_game)
   \<and> shop_coins (shop (fst (snd (coin_step centre_coin coin_game empty_store)))) = 5
   \<and> state_tbl (snd (snd (coin_step centre_coin coin_game empty_store))) ''coins''
       = Some (str_int 5)
   \<and> coins_saved (fst (snd (update_coins [centre_coin] coin_game empty_store)))
        (snd (snd (update_coins [centre_coin] coin_game empty_store)))"
proof -
  have h: "collects centre_coin (bird coin_game)"
    by (simp add: collects_def centre_coin_def coin_game_def Coin_update_def Let_def
        Coin_check_collision_dist euclidean_def PIPE_SPEED_def)
  have v: "shop_coins (shop coin_game) = 0" "coin_value centre_coin = 5" "conn_ok empty_store"
    by (simp_all add: coin_game_def centre_coin_def empty_store_def)
  show ?thesis
    using h v coin_collected_paid [of centre_coin coin_game empty_store "[centre_coin]"]
    by auto
qed


section \<open>Buying and equipping in the shop\<close>

lemma SKINS_distinct: "distinct (map fst SKINS)"
  by (simp add: SKINS_def)

lemma SKINS_entry: "(name, pal, price) \<in> set SKINS \<Longrightarrow> map_of SKINS name = Some (pal, price)"
  using SKINS_distinct by (rule map_of_is_SomeI)

lemma SKINS_known: "map_of SKINS name = Some (pal, price) \<Longrightarrow> name \<in> fst ` set SKINS"
  by (metis fst_conv image_eqI map_of_SomeD)

lemma set_skin_owned:
  assumes "map_of SKINS name = Some (pal, price)" and "name \<in> owned_skins b"
  shows "set_skin name b db =
           Inr (b\<lparr>current_skin := name, colors := Some pal\<rparr>,
                save_current_skin (b\<lparr>current_skin := name, colors := Some pal\<rparr>) db)"
  using assms SKINS_known [OF assms(1)] by (simp add: set_skin_def apply_skin_def)

lemma click_owned:
  assumes "map_of SKINS name = Some (pal, price)" and "name \<in> owned_skins b"
  shows "handle_click_button name price sh b db =
           Inr (sh, b\<lparr>current_skin := name, colors := Some pal\<rparr>,
                save_current_skin (b\<lparr>current_skin := name, colors := Some pal\<rparr>) db)"
  using assms by (simp add: handle_click_button_def set_skin_owned)

lemma click_unaffordable:
  assumes "name \<notin> owned_skins b" and "shop_coins sh < price"
  shows "handle_click_button name price sh b db = Inr (sh, b, db)"
  using assms by (simp add: handle_click_button_def)

lemma click_purchase:
  assumes "map_of SKINS name = Some (pal, price)" and "name \<notin> owned_skins b"
      and "price \<le> shop_coins sh"
  shows "handle_click_button name price sh b db =
           Inr (sh\<lparr>shop_coins := shop_coins sh - price\<rparr>,
                b\<lparr>owned_skins := insert name (owned_skins b), current_skin := name,
                  colors := Some pal\<rparr>,
                Shop_save_coins (sh\<lparr>shop_coins := shop_coins sh - price\<rparr>)
                  (save_current_skin
                     (b\<lparr>owned_skins := insert name (owned_skins b), current_skin := name,
                        colors := Some pal\<rparr>)
                     (case add_owned_skin name db of Inr db' \<Rightarrow> db' | Inl e \<Rightarrow> db)))"
proof -
  let ?b1 = "b\<lparr>owned_skins := insert name (owned_skins b)\<rparr>"
  let ?db1 = "case add_owned_skin name db of Inr db' \<Rightarrow> db' | Inl e \<Rightarrow> db"
  have p: "purchase_skin name (shop_coins sh) b db = (True, ?b1, ?db1)"
    using assms by (simp add: purchase_skin_def)
  have "name \<in> owned_skins ?b1"
    by simp
  then have s: "set_skin name ?b1 ?db1 =
      Inr (?b1\<lparr>current_skin := name, colors := Some pal\<rparr>,
           save_current_skin (?b1\<lparr>current_skin := name, colors := Some pal\<rparr>) ?db1)"
    using assms(1) by (rule set_skin_owned [rotated])
  show ?thesis
    using assms(2,3) by (simp add: handle_click_button_def p s Let_def)
qed

lemma purchase_skin_unknown: "map_of SKINS name = None \<Longrightarrow> purchase_skin name c b db = (False, b, db)"
  by (simp add: purchase_skin_def)

lemma handle_click_loop_button:
  "handle_click_loop pos items y_pos sh b db = Some r
   \<Longrightarrow> \<exists>name pal price. (name, pal, price) \<in> set items
         \<and> r = handle_click_button name price sh b db"
proof (induction items arbitrary: y_pos)
  case Nil
  then show ?case by simp
next
  case (Cons item items)
  obtain name pal price where item: "item = (name, pal, price)"
    by (cases item)
  show ?case
  proof (cases "handle_click_loop pos (item # items) y_pos sh b db
                  = Some (handle_click_button name price sh b db)")
    case True
    then show ?thesis
      using Cons.prems item by auto
  next
    case False
    then have "handle_click_loop pos (item # items) y_pos sh b db
        = handle_click_loop pos items (y_pos + button_height sh + margin sh) sh b db"
      using item by (simp add: Let_def split: if_splits)
    then show ?thesis
      using Cons.IH [of "y_pos + button_height sh + margin sh"] Cons.prems by auto
  qed
qed

lemma click_button_total:
  assumes "map_of SKINS name = Some (pal, price)"
  shows "\<exists>st. handle_click_button name price sh b db = Inr st"
proof (cases "name \<in> owned_skins b")
  case True
  then show ?thesis
    using click_owned [OF assms True] by blast
next
  case False
  show ?thesis
  proof (cases "price \<le> shop_coins sh")
    case True
    then show ?thesis
      using click_purchase [OF assms False True] by blast
  next
    case no: False
    then show ?thesis
      using click_unaffordable [OF False, of sh price db] by simp
  qed
qed

lemma handle_click_total: "\<exists>ok st. handle_click pos click_rect sh b db = Inr (ok, st)"
proof (cases "handle_click_loop pos SKINS 0 sh b db")
  case None
  then show ?thesis
    by (auto simp: handle_click_def)
next
  case (Some r)
  then obtain name pal price where "(name, pal, price) \<in> set SKINS"
      and r: "r = handle_click_button name price sh b db"
    using handle_click_loop_button by blast
  then have "map_of SKINS name = Some (pal, price)"
    by (simp add: SKINS_entry)
  then obtain st where "r = Inr st"
    using click_button_total r by blast
  then show ?thesis
    using Some by (cases st) (auto simp: handle_click_def)
qed

text \<open>An open shop holding a given balance, a bird that owns only the default skin, and one
  that also owns \<open>blue_jay\<close> without having it equipped.\<close>

definition shop_with :: "int \<Rightarrow> Shop" where
  "shop_with c =
     \<lparr>active = True, shop_coins = c, button_height = 50, button_width = 200, margin = 10,
      scroll_offset = 0, scroll_speed = 20, max_visible_items = 6\<rparr>"

definition default_bird :: Bird where
  "default_bird =
     \<lparr>bird_x = 133, bird_y = 300, velocity = 0, bird_size = 30, angle = 0,
      current_skin = ''default'', owned_skins = {''default''},
      colors = Some \<lparr>body = (255, 185, 0), wing = (255, 140, 0), beak = (255, 69, 0),
                     eye = (0, 0, 0)\<rparr>\<rparr>"

definition jay_owner :: Bird where
  "jay_owner = default_bird\<lparr>owned_skins := {''default'', ''blue_jay''}\<rparr>"

definition exit_rect :: Rect where
  "exit_rect = \<lparr>rect_x = 110, rect_y = 532, rect_w = 180, rect_h = 36\<rparr>"

text \<open>
  A click on the button of \<open>blue_jay\<close> (drawn at 100, 160, 200 wide and 50 high). With
  40 coins and the skin not owned nothing changes, yet \<open>handle_click\<close> returns \<open>True\<close>
  as it does after a purchase. With the skin already owned the click changes the equipped
  skin and writes it to the store.
\<close>

theorem click_reports_and_equips:
  "handle_click (150, 170) exit_rect (shop_with 40) default_bird empty_store
     = Inr (True, shop_with 40, default_bird, empty_store)
   \<and> current_skin jay_owner = ''default''
   \<and> handle_click (150, 170) exit_rect (shop_with 40) jay_owner empty_store
     = Inr (True, shop_with 40,
            jay_owner\<lparr>current_skin := ''blue_jay'',
                      colors := Some \<lparr>body = (100, 149, 237), wing = (65, 105, 225),
                                      beak = (211, 211, 211), eye = (0, 0, 0)\<rparr>\<rparr>,
            empty_store\<lparr>state_tbl := [''current_skin'' \<mapsto> ''blue_jay'']\<rparr>)"
  by (simp add: handle_click_def handle_click_button_def set_skin_def apply_skin_def
      save_current_skin_def set_state_def collidepoint_def shop_with_def default_bird_def
      jay_owner_def empty_store_def SKINS_def BLACK_def WINDOW_WIDTH_def Let_def)

text \<open>
  C2, as the code has it. For the button of a catalog skin, \<open>handle_click\<close> does one of
  three things. Skin not owned and balance below the price: balance, owned set, equipped
  skin and store are unchanged. Skin not owned and balance at least the price: the price
  is deducted, the skin is added to the owned set and equipped, and skin and balance are
  written to the store. Skin already owned: it is equipped, balance and owned set
  unchanged. A name outside the catalog has no button, and \<open>purchase_skin\<close> and
  \<open>set_skin\<close> leave everything unchanged for it. \<open>handle_click\<close> never raises, and it
  returns \<open>True\<close> for every click on a button, whatever the button did.
\<close>

theorem click_button_cases:
  assumes "map_of SKINS name = Some (pal, price)"
  shows "(name \<notin> owned_skins b \<and> shop_coins sh < price \<longrightarrow>
            handle_click_button name price sh b db = Inr (sh, b, db))
         \<and> (name \<notin> owned_skins b \<and> price \<le> shop_coins sh \<longrightarrow>
            handle_click_button name price sh b db =
              Inr (sh\<lparr>shop_coins := shop_coins sh - price\<rparr>,
                   b\<lparr>owned_skins := insert name (owned_skins b), current_skin := name,
                     colors := Some pal\<rparr>,
                   Shop_save_coins (sh\<lparr>shop_coins := shop_coins sh - price\<rparr>)
                     (save_current_skin
                        (b\<lparr>owned_skins := insert name (owned_skins b), current_skin := name,
                           colors := Some pal\<rparr>)
                        (case add_owned_skin name db of Inr db' \<Rightarrow> db' | Inl e \<Rightarrow> db))))
         \<and> (name \<in> owned_skins b \<longrightarrow>
            handle_click_button name price sh b db =
              Inr (sh, b\<lparr>current_skin := name, colors := Some pal\<rparr>,
                   save_current_skin (b\<lparr>current_skin := name, colors := Some pal\<rparr>) db))
         \<and> (map_of SKINS other = None \<longrightarrow>
              purchase_skin other c b db = (False, b, db) \<and> set_skin other b db = Inr (b, db))
         \<and> (\<exists>ok st. handle_click pos click_rect sh b db = Inr (ok, st))
         \<and> (active sh \<and> handle_click_loop pos SKINS 0 sh b db = Some (Inr st') \<longrightarrow>
              handle_click pos click_rect sh b db = Inr (True, st'))"
proof -
  have unknown: "map_of SKINS other = None \<longrightarrow>
      purchase_skin other c b db = (False, b, db) \<and> set_skin other b db = Inr (b, db)"
  proof
    assume n: "map_of SKINS other = None"
    then have "other \<notin> fst ` set SKINS"
      by (simp add: map_of_eq_None_iff)
    then show "purchase_skin other c b db = (False, b, db) \<and> set_skin other b db = Inr (b, db)"
      using n by (simp add: purchase_skin_unknown set_skin_def)
  qed
  have reported: "active sh \<and> handle_click_loop pos SKINS 0 sh b db = Some (Inr st') \<longrightarrow>
      handle_click pos click_rect sh b db = Inr (True, st')"
    by (simp add: handle_click_def)
  show ?thesis
    using click_unaffordable [of name b sh price db] click_purchase [OF assms, of b sh db]
      click_owned [OF assms, of b sh db] unknown reported
      handle_click_total [of pos click_rect sh b db]
    by blast
qed

theorem click_button_cases_witness:
  "handle_click_button ''blue_jay'' 50 (shop_with 100) default_bird empty_store =
     Inr (shop_with 50,
          default_bird\<lparr>owned_skins := {''blue_jay'', ''default''}, current_skin := ''blue_jay'',
                       colors := Some \<lparr>body = (100, 149, 237), wing = (65, 105, 225),
                                       beak = (211, 211, 211), eye = (0, 0, 0)\<rparr>\<rparr>,
          \<lparr>state_tbl = [''current_skin'' \<mapsto> ''blue_jay'', ''coins'' \<mapsto> str_int 50],
           owned_skins_tbl = {''blue_jay''}, conn_ok = True\<rparr>)
   \<and> handle_click_button ''blue_jay'' 50 (shop_with 40) default_bird empty_store =
     Inr (shop_with 40, default_bird, empty_store)"
proof -
  have e: "map_of SKINS ''blue_jay'' =
      Some (\<lparr>body = (100, 149, 237), wing = (65, 105, 225), beak = (211, 211, 211),
              eye = (0, 0, 0)\<rparr>, 50)"
    by (simp add: SKINS_def BLACK_def)
  have h: "''blue_jay'' \<notin> owned_skins default_bird"
      "50 \<le> shop_coins (shop_with 100)" "shop_coins (shop_with 40) < 50"
    by (simp_all add: default_bird_def shop_with_def)
  have "handle_click_button ''blue_jay'' 50 (shop_with 40) default_bird empty_store =
      Inr (shop_with 40, default_bird, empty_store)"
    using click_button_cases [OF e, of default_bird "shop_with 40" empty_store] h by blast
  moreover have "handle_click_button ''blue_jay'' 50 (shop_with 100) default_bird empty_store =
      Inr (shop_with 50,
          default_bird\<lparr>owned_skins := {''blue_jay'', ''default''}, current_skin := ''blue_jay'',
                       colors := Some \<lparr>body = (100, 149, 237), wing = (65, 105, 225),
                                       beak = (211, 211, 211), eye = (0, 0, 0)\<rparr>\<rparr>,
          \<lparr>state_tbl = [''current_skin'' \<mapsto> ''blue_jay'', ''coins'' \<mapsto> str_int 50],
           owned_skins_tbl = {''blue_jay''}, conn_ok = True\<rparr>)"
    using click_button_cases [OF e, of default_bird "shop_with 100" empty_store] h
    by (simp add: Shop_save_coins_def save_current_skin_def add_owned_skin_def set_state_def
        shop_with_def default_bird_def empty_store_def)
  ultimately show ?thesis
    by blast
qed


end
